theory Spec2Isabelle
  imports Main "HOL-Library.Sublist"
begin

section \<open>Python text\<close>

text \<open>
  A Python \<^verbatim>\<open>str\<close> is modelled as a \<^typ>\<open>string\<close> whose characters are the code
  points below 256. \<^verbatim>\<open>str.strip()\<close> with no argument removes the characters for which
  \<^verbatim>\<open>str.isspace\<close> holds from both ends; below 256 these are the code points
  9 to 13, 28 to 32, 133 and 160.
\<close>

definition is_space :: "char \<Rightarrow> bool" where
  "is_space c =
     (let n = (of_char c :: nat)
      in (9 \<le> n \<and> n \<le> 13) \<or> (28 \<le> n \<and> n \<le> 32) \<or> n = 133 \<or> n = 160)"

definition strip :: "string \<Rightarrow> string" where
  "strip s = rev (dropWhile is_space (rev (dropWhile is_space s)))"

definition startswith :: "string \<Rightarrow> string \<Rightarrow> bool" where
  "startswith s p = (take (length p) s = p)"

text \<open>Decimal rendering of an integer, as \<^verbatim>\<open>str(n)\<close> gives it.\<close>

fun digits :: "nat \<Rightarrow> string" where
  "digits n =
     (if n < 10 then [char_of (48 + n)]
      else digits (n div 10) @ [char_of (48 + n mod 10)])"

declare digits.simps [simp del]

definition str_int :: "int \<Rightarrow> string" where
  "str_int i = (if i < 0 then CHR ''-'' # digits (nat (- i)) else digits (nat i))"

section \<open>Tables\<close>

text \<open>
  A cell of a table is null (pandas' NaN/None), a text or a number. \<open>py_str\<close> is
  Python's \<^verbatim>\<open>str(v)\<close>, which \<^verbatim>\<open>astype(str)\<close> applies to every value; numbers are
  integers here, which is enough to tell whether their text is blank.
\<close>

datatype cell = Null | Text string | Num int

fun py_str :: "cell \<Rightarrow> string" where
  "py_str Null = ''nan''"
| "py_str (Text s) = s"
| "py_str (Num i) = str_int i"

text \<open>
  A column label is whatever the header cell held: a text or a number. \<open>LNaN\<close> is the
  missing label that \<^verbatim>\<open>Index.str.strip()\<close> puts in place of a label that is not a text.
\<close>

datatype label = LStr string | LNum int | LNaN

text \<open>
  A table (a pandas DataFrame): the column labels in order, and the rows in order, each
  with its index label and its cells. A cell a row does not hold reads as null.
\<close>

record frame =
  columns :: "label list"
  rows :: "(nat \<times> cell list) list"

definition cell_at :: "cell list \<Rightarrow> nat \<Rightarrow> cell" where
  "cell_at r j = (if j < length r then r ! j else Null)"

text \<open>\<^verbatim>\<open>df.empty\<close>: one of the two axes has length zero.\<close>

definition df_empty :: "frame \<Rightarrow> bool" where
  "df_empty df = (columns df = [] \<or> rows df = [])"

datatype exn =
    ReadError nat
  | FileNotFoundError
  | IndexError
  | AttributeError
  | KeyError

section \<open>utils.py\<close>

subsection \<open>get\_metric\_columns\<close>

text \<open>
  \<^verbatim>\<open>
  def get_metric_columns(df):
      if df is None or df.empty or len(df.columns) < 2:
          return []
      return list(df.columns[1:])
  \<close>
\<close>

definition get_metric_columns :: "frame option \<Rightarrow> label list" where
  "get_metric_columns df =
     (case df of
        None \<Rightarrow> []
      | Some d \<Rightarrow> if df_empty d \<or> length (columns d) < 2 then [] else drop 1 (columns d))"

subsection \<open>The file and the reads\<close>

text \<open>
  The workbook stored at \<^verbatim>\<open>DEFAULT_DATA_PATH\<close> is represented by what the library call
  \<^verbatim>\<open>pd.read_excel(DEFAULT_DATA_PATH, sheet_name="Sheet1", usecols="F:N", header=h,
  engine="openpyxl")\<close> yields for each header row \<open>h\<close>: a table, or the exception the
  library raises (a corrupt file, a missing sheet, a column range out of bounds). The
  world holds the file at that path, if there is one, and the log of the header rows of
  all library reads made so far, oldest first.
\<close>

type_synonym workbook = "nat \<Rightarrow> exn + frame"

record world =
  disk :: "workbook option"
  reads :: "nat list"

text \<open>\<^verbatim>\<open>os.path.isfile(DEFAULT_DATA_PATH)\<close>\<close>

definition isfile :: "world \<Rightarrow> bool" where
  "isfile w = (disk w \<noteq> None)"

text \<open>The inner function \<^verbatim>\<open>_read(header_row)\<close> of \<^verbatim>\<open>load_excel\<close>.\<close>

definition read :: "nat \<Rightarrow> world \<Rightarrow> (exn + frame) \<times> world" where
  "read header_row w =
     ((case disk w of None \<Rightarrow> Inl FileNotFoundError | Some wb \<Rightarrow> wb header_row),
      w\<lparr>reads := reads w @ [header_row]\<rparr>)"

subsection \<open>The steps of load\_excel\<close>

text \<open>
  Line 35, \<^verbatim>\<open>df.columns[0].startswith("Unnamed")\<close>: indexing raises IndexError when the
  table has no column, and a label that is not a text has no \<^verbatim>\<open>startswith\<close>.
\<close>

definition first_column_unnamed :: "frame \<Rightarrow> exn + bool" where
  "first_column_unnamed df =
     (case columns df of
        [] \<Rightarrow> Inl IndexError
      | LStr s # _ \<Rightarrow> Inr (startswith s ''Unnamed'')
      | _ # _ \<Rightarrow> Inl AttributeError)"

text \<open>
  Line 38, \<^verbatim>\<open>df.columns.str.strip()\<close>: the \<^verbatim>\<open>.str\<close> accessor raises AttributeError on an
  index that holds labels but no text; otherwise every text is stripped and every other
  label becomes the missing label.
\<close>

fun is_str :: "label \<Rightarrow> bool" where
  "is_str (LStr s) = True"
| "is_str l = False"

fun strip_label :: "label \<Rightarrow> label" where
  "strip_label (LStr s) = LStr (strip s)"
| "strip_label l = LNaN"

definition str_strip :: "label list \<Rightarrow> exn + label list" where
  "str_strip ls =
     (if ls \<noteq> [] \<and> \<not> list_ex is_str ls then Inl AttributeError
      else Inr (map strip_label ls))"

text \<open>The positions of the columns that carry a label.\<close>

definition get_indexer_for :: "label list \<Rightarrow> label \<Rightarrow> nat list" where
  "get_indexer_for ls l = filter (\<lambda>j. ls ! j = l) [0..<length ls]"

text \<open>
  Line 41, \<^verbatim>\<open>df.dropna(subset=[city_col])\<close>: a row goes when it is null in a column
  labelled \<open>city_col\<close>; the rows that stay keep their index labels.
\<close>

definition dropna :: "label \<Rightarrow> frame \<Rightarrow> exn + frame" where
  "dropna city_col df =
     (let js = get_indexer_for (columns df) city_col
      in if js = [] then Inl KeyError
         else Inr (df\<lparr>rows := filter (\<lambda>(i, r). \<forall>j \<in> set js. cell_at r j \<noteq> Null) (rows df)\<rparr>))"

text \<open>
  Line 42, the mask \<^verbatim>\<open>df[city_col].astype(str).str.strip() != ""\<close>: \<^verbatim>\<open>df[city_col]\<close>
  raises KeyError when no column has the label, is the column when exactly one has it,
  and is a DataFrame, which has no \<^verbatim>\<open>.str\<close>, when several have it.
\<close>

definition city_mask :: "frame \<Rightarrow> label \<Rightarrow> exn + bool list" where
  "city_mask df city_col =
     (case get_indexer_for (columns df) city_col of
        [] \<Rightarrow> Inl KeyError
      | [j] \<Rightarrow> Inr (map (\<lambda>(i, r). strip (py_str (cell_at r j)) \<noteq> '''') (rows df))
      | _ # _ # _ \<Rightarrow> Inl AttributeError)"

text \<open>\<^verbatim>\<open>df[mask]\<close>: the rows whose mask entry is true, with their index labels.\<close>

definition getitem_mask :: "frame \<Rightarrow> bool list \<Rightarrow> frame" where
  "getitem_mask df keep = df\<lparr>rows := map fst (filter snd (zip (rows df) keep))\<rparr>"

text \<open>Line 43, \<^verbatim>\<open>df.reset_index(drop=True)\<close>: the rows are numbered from zero.\<close>

definition reset_index :: "frame \<Rightarrow> frame" where
  "reset_index df = df\<lparr>rows := zip [0..<length (rows df)] (map snd (rows df))\<rparr>"

text \<open>
  Lines 38 to 43 of \<^verbatim>\<open>load_excel\<close>, on the table that was read:
  \<^verbatim>\<open>
  df.columns = df.columns.str.strip()
  city_col = df.columns[0]
  df = df.dropna(subset=[city_col])
  df = df[df[city_col].astype(str).str.strip() != ""]
  return df.reset_index(drop=True)
  \<close>
\<close>

definition clean_table :: "frame \<Rightarrow> exn + frame" where
  "clean_table df =
     (case str_strip (columns df) of
        Inl e \<Rightarrow> Inl e
      | Inr cols \<Rightarrow>
          (case cols of
             [] \<Rightarrow> Inl IndexError
           | city_col # _ \<Rightarrow>
               (case dropna city_col (df\<lparr>columns := cols\<rparr>) of
                  Inl e \<Rightarrow> Inl e
                | Inr df1 \<Rightarrow>
                    (case city_mask df1 city_col of
                       Inl e \<Rightarrow> Inl e
                     | Inr keep \<Rightarrow> Inr (reset_index (getitem_mask df1 keep))))))"

subsection \<open>load\_excel\<close>

text \<open>
  Lines 33 to 36, the table \<^verbatim>\<open>df\<close> that the rest of \<^verbatim>\<open>load_excel\<close> works on:
  \<^verbatim>\<open>
  df = _read()
  if df.columns[0].startswith("Unnamed"):
      df = _read(header_row=3)
  \<close>
\<close>

definition read_with_fallback :: "world \<Rightarrow> (exn + frame) \<times> world" where
  "read_with_fallback w =
     (case read 2 w of
        (Inl e, w1) \<Rightarrow> (Inl e, w1)
      | (Inr df, w1) \<Rightarrow>
          (case first_column_unnamed df of
             Inl e \<Rightarrow> (Inl e, w1)
           | Inr True \<Rightarrow> read 3 w1
           | Inr False \<Rightarrow> (Inr df, w1)))"

text \<open>
  \<^verbatim>\<open>
  def load_excel():
      def _read(header_row=2): ...
      if not os.path.isfile(DEFAULT_DATA_PATH):
          return None
      df = _read()
      ...
      return df.reset_index(drop=True)
  \<close>
  The result is the exception that left the function, or what it returned: \<open>None\<close> or
  the table. The world it returns has the reads it made in its log.
\<close>

definition load_excel :: "world \<Rightarrow> (exn + frame option) \<times> world" where
  "load_excel w =
     (if \<not> isfile w then (Inr None, w)
      else
        (case read_with_fallback w of
           (Inl e, w') \<Rightarrow> (Inl e, w')
         | (Inr df, w') \<Rightarrow>
             (case clean_table df of
                Inl e \<Rightarrow> (Inl e, w')
              | Inr t \<Rightarrow> (Inr (Some t), w'))))"

section \<open>app.py\<close>

text \<open>
  The row that \<^verbatim>\<open>make_bar_chart(city_name)\<close> charts (lines 168 to 171), with
  \<^verbatim>\<open>city_col = df.columns[0]\<close> of line 139:
  \<^verbatim>\<open>
  row = df[df[city_col].astype(str).str.strip() == city_name]
  if row.empty:
      return None
  row = row.iloc[0]
  \<close>
\<close>

definition name_mask :: "frame \<Rightarrow> label \<Rightarrow> string \<Rightarrow> exn + bool list" where
  "name_mask df city_col city_name =
     (case get_indexer_for (columns df) city_col of
        [] \<Rightarrow> Inl KeyError
      | [j] \<Rightarrow> Inr (map (\<lambda>(i, r). strip (py_str (cell_at r j)) = city_name) (rows df))
      | _ # _ # _ \<Rightarrow> Inl AttributeError)"

definition make_bar_chart_row :: "frame \<Rightarrow> string \<Rightarrow> exn + (nat \<times> cell list) option" where
  "make_bar_chart_row df city_name =
     (case columns df of
        [] \<Rightarrow> Inl IndexError
      | city_col # _ \<Rightarrow>
          (case name_mask df city_col city_name of
             Inl e \<Rightarrow> Inl e
           | Inr keep \<Rightarrow>
               (let row = getitem_mask df keep
                in if df_empty row then Inr None else Inr (Some (hd (rows row))))))"

section \<open>The words of the specification\<close>

text \<open>
  The key of a row is its cell in the first column. A key is blank when it is null, or
  when its text, stripped, is empty. \<open>kept_rows\<close> are the cells of the rows of a table
  whose key is not blank, in the order of the table.
\<close>

definition key_of :: "cell list \<Rightarrow> cell" where
  "key_of r = cell_at r 0"

definition blank_key :: "cell \<Rightarrow> bool" where
  "blank_key c = (c = Null \<or> strip (py_str c) = [])"

definition kept_rows :: "frame \<Rightarrow> cell list list" where
  "kept_rows df = filter (\<lambda>r. \<not> blank_key (key_of r)) (map snd (rows df))"

text \<open>
  The first column has a placeholder name: a text that starts with \<open>Unnamed\<close>, as the
  names are that the library gives the columns whose header cell is blank
  (\<open>Unnamed: 5\<close> for the sixth column of the sheet).
\<close>

definition placeholder_first :: "frame \<Rightarrow> bool" where
  "placeholder_first df =
     (case columns df of LStr s # _ \<Rightarrow> startswith s ''Unnamed'' | _ \<Rightarrow> False)"

text \<open>
  A valid label of a header cell: a text that is not empty, has no white space at either
  end and does not itself read as a placeholder.
\<close>

definition valid_label :: "string \<Rightarrow> bool" where
  "valid_label s = (s \<noteq> [] \<and> strip s = s \<and> \<not> startswith s ''Unnamed'')"

text \<open>A row matches a city name when the text of its key, stripped, is the name.\<close>

definition matches :: "string \<Rightarrow> nat \<times> cell list \<Rightarrow> bool" where
  "matches city_name ir = (strip (py_str (key_of (snd ir))) = city_name)"

section \<open>Example workbooks\<close>

text \<open>
  A workbook whose third row is blank in the selected columns and whose fourth row holds
  the header. Read with header row 2, the columns get placeholder names and the header
  is the first row of data; read with header row 3, the header gives the names.
\<close>

definition ex_read2 :: frame where
  "ex_read2 =
     \<lparr>columns = [LStr ''Unnamed: 5'', LStr ''Unnamed: 6'', LStr ''Unnamed: 7''],
      rows = [(0, [Text ''City'', Text ''  Water Stress  '', Text ''Rank'']),
              (1, [Text ''Austin'', Num 3, Num 1])]\<rparr>"

definition ex_read3 :: frame where
  "ex_read3 =
     \<lparr>columns = [LStr ''City'', LStr ''  Water Stress  '', LStr ''Rank''],
      rows = [(0, [Text ''Austin'', Num 3, Num 1]),
              (1, [Text ''   '', Num 9, Num 9]),
              (2, [Null, Num 7, Num 8]),
              (3, [Text ''  Austin  '', Num 5, Num 2]),
              (4, [Text [], Num 6, Num 6]),
              (5, [Text ''Boston'', Num 4, Num 3])]\<rparr>"

definition ex_workbook :: workbook where
  "ex_workbook h =
     (if h = 2 then Inr ex_read2 else if h = 3 then Inr ex_read3 else Inl (ReadError h))"

definition ex_world :: world where
  "ex_world = \<lparr>disk = Some ex_workbook, reads = []\<rparr>"

definition ex_table :: frame where
  "ex_table =
     \<lparr>columns = [LStr ''City'', LStr ''Water Stress'', LStr ''Rank''],
      rows = [(0, [Text ''Austin'', Num 3, Num 1]),
              (1, [Text ''  Austin  '', Num 5, Num 2]),
              (2, [Text ''Boston'', Num 4, Num 3])]\<rparr>"

text \<open>A workbook whose header is in the third row, with three rows of data.\<close>

definition ex_three :: frame where
  "ex_three =
     \<lparr>columns = [LStr ''City'', LStr ''Score''],
      rows = [(0, [Text ''Austin'', Num 1]),
              (1, [Null, Num 2]),
              (2, [Text ''Boston'', Num 3])]\<rparr>"

definition ex_three_world :: world where
  "ex_three_world =
     \<lparr>disk = Some (\<lambda>h. if h = 2 then Inr ex_three else Inl (ReadError h)), reads = []\<rparr>"

definition ex_three_table :: frame where
  "ex_three_table =
     \<lparr>columns = [LStr ''City'', LStr ''Score''],
      rows = [(0, [Text ''Austin'', Num 1]),
              (1, [Text ''Boston'', Num 3])]\<rparr>"

text \<open>A file that is there and cannot be read, and a world with no file.\<close>

definition ex_corrupt_world :: world where
  "ex_corrupt_world = \<lparr>disk = Some (\<lambda>h. Inl (ReadError 0)), reads = []\<rparr>"

definition ex_no_file :: world where
  "ex_no_file = \<lparr>disk = None, reads = []\<rparr>"

section \<open>Facts about the text functions\<close>

lemma all_dropWhile: "(\<forall>x \<in> set (dropWhile P xs). P x) \<longleftrightarrow> (\<forall>x \<in> set xs. P x)"
  by (induction xs) auto

lemma strip_eq_Nil_iff: "strip s = [] \<longleftrightarrow> (\<forall>c \<in> set s. is_space c)"
  by (simp add: strip_def dropWhile_eq_Nil_conv all_dropWhile)

lemma strip_ends:
  assumes "strip s \<noteq> []"
  shows "\<not> is_space (hd (strip s))" and "\<not> is_space (last (strip s))"
proof -
  let ?a = "dropWhile is_space s"
  let ?b = "dropWhile is_space (rev ?a)"
  from assms have b: "?b \<noteq> []" by (simp add: strip_def)
  have a: "?a \<noteq> []"
  proof
    assume "?a = []"
    with b show False by simp
  qed
  have "\<not> is_space (hd ?b)" using b by (rule hd_dropWhile)
  then show "\<not> is_space (last (strip s))" using b by (simp add: strip_def last_rev)
  have "\<not> is_space (hd ?a)" using a by (rule hd_dropWhile)
  moreover have "last ?b = last (rev ?a)"
    using b by (metis last_appendR takeWhile_dropWhile_id)
  ultimately show "\<not> is_space (hd (strip s))"
    using a b by (simp add: strip_def hd_rev last_rev)
qed

lemma dropWhile_id: "xs \<noteq> [] \<Longrightarrow> \<not> P (hd xs) \<Longrightarrow> dropWhile P xs = xs"
  by (cases xs) auto

lemma strip_id: 
  assumes "s \<noteq> []" "\<not> is_space (hd s)" "\<not> is_space (last s)"
  shows "strip s = s"
proof -
  from assms have "dropWhile is_space s = s" by (simp add: dropWhile_id)
  moreover from assms have "dropWhile is_space (rev s) = rev s" 
    by (simp add: dropWhile_id hd_rev)
  ultimately show ?thesis by (simp add: strip_def)
qed

lemma strip_idem: "strip (strip s) = strip s"
proof (cases "strip s = []")
  case True
  have "strip [] = []" by (simp add: strip_def)
  with True show ?thesis by simp
next
  case False
  then show ?thesis using strip_ends[OF False] by (intro strip_id) auto
qed

lemma of_char_digit: "k < 10 \<Longrightarrow> of_char (char_of (48 + k) :: char) = (48 + k :: nat)"
  by (simp add: of_char_of)

lemma digits_not_space: "c \<in> set (digits n) \<Longrightarrow> \<not> is_space c"
proof (induction n arbitrary: c rule: digits.induct)
  case (1 n)
  show ?case
  proof (cases "n < 10")
    case True
    with "1.prems" have "c = char_of (48 + n)" by (simp add: digits.simps)
    with True show ?thesis by (simp add: is_space_def of_char_digit)
  next
    case False
    with "1.prems" have "c \<in> set (digits (n div 10)) \<or> c = char_of (48 + n mod 10)"
      by (subst (asm) digits.simps) auto
    then show ?thesis
    proof
      assume "c \<in> set (digits (n div 10))"
      with False "1.IH" show ?thesis by simp
    next
      assume "c = char_of (48 + n mod 10)"
      moreover have lt: "n mod 10 < 10" by simp
      ultimately have "of_char c = (48 + n mod 10 :: nat)" by (simp only: of_char_digit)
      with lt show ?thesis unfolding is_space_def Let_def by arith
    qed
  qed
qed

lemma digits_not_Nil: "digits n \<noteq> []"
  by (subst digits.simps) simp

lemma strip_str_int: "strip (str_int i) \<noteq> []"
proof -
  have "\<not> is_space CHR ''-''" by (simp add: is_space_def)
  moreover obtain d ds where "digits (nat i) = d # ds"
    using digits_not_Nil [of "nat i"] by (cases "digits (nat i)") auto
  then have "\<not> is_space d" using digits_not_space [of d "nat i"] by simp
  ultimately have "\<exists>c \<in> set (str_int i). \<not> is_space c"
    using \<open>digits (nat i) = d # ds\<close> by (simp add: str_int_def)
  then show ?thesis by (simp add: strip_eq_Nil_iff)
qed

section \<open>Facts about the steps of load\_excel\<close>

lemma mask_filter: "map fst (filter snd (zip xs (map P xs))) = filter P xs"
  by (induction xs) auto

lemma get_indexer_for_Cons:
  "get_indexer_for (l # ls) l = 0 # map Suc (get_indexer_for ls l)"
  by (simp add: get_indexer_for_def upt_conv_Cons filter_map o_def map_Suc_upt[symmetric] del: upt_Suc)

lemma get_indexer_for_Nil_iff: "get_indexer_for ls l = [] \<longleftrightarrow> l \<notin> set ls"
  by (auto simp: get_indexer_for_def filter_empty_conv in_set_conv_nth)

lemma clean_table_Cons:
  assumes cols: "map strip_label (columns df) = c # cs"
    and str: "list_ex is_str (columns df)"
  shows "clean_table df =
     (if get_indexer_for cs c = []
      then Inr \<lparr>columns = c # cs, rows = zip [0..<length (kept_rows df)] (kept_rows df)\<rparr>
      else Inl AttributeError)"
proof (cases "get_indexer_for cs c = []")
  case True
  then have js: "get_indexer_for (c # cs) c = [0]" by (simp add: get_indexer_for_Cons)
  have ss: "str_strip (columns df) = Inr (c # cs)" using cols str by (simp add: str_strip_def)
  let ?kept = "filter (\<lambda>(i, r). strip (py_str (cell_at r 0)) \<noteq> [])
          (filter (\<lambda>(i, r). cell_at r 0 \<noteq> Null) (rows df))"
  have kept: "map snd ?kept = kept_rows df"
    by (simp add: kept_rows_def blank_key_def key_of_def filter_map o_def case_prod_unfold)
  then have len: "length ?kept = length (kept_rows df)"
    by (metis length_map)
  have "clean_table df = Inr (df\<lparr>columns := c # cs, rows := zip [0..<length ?kept] (map snd ?kept)\<rparr>)"
    by (simp add: clean_table_def ss dropna_def city_mask_def js getitem_mask_def reset_index_def
        mask_filter)
  also have "df\<lparr>columns := c # cs, rows := zip [0..<length ?kept] (map snd ?kept)\<rparr> =
      \<lparr>columns = c # cs, rows = zip [0..<length (kept_rows df)] (kept_rows df)\<rparr>"
    unfolding kept len by (cases df) simp
  finally show ?thesis using True by simp
next
  case False
  then obtain j js where "get_indexer_for (c # cs) c = 0 # Suc j # js"
    by (cases "get_indexer_for cs c") (auto simp: get_indexer_for_Cons)
  moreover have "str_strip (columns df) = Inr (c # cs)" using cols str by (simp add: str_strip_def)
  ultimately show ?thesis using False
    by (simp add: clean_table_def dropna_def city_mask_def)
qed

lemma clean_table_no_columns: "columns df = [] \<Longrightarrow> clean_table df = Inl IndexError"
  by (simp add: clean_table_def str_strip_def)

lemma clean_table_no_text:
  "columns df \<noteq> [] \<Longrightarrow> \<not> list_ex is_str (columns df) \<Longrightarrow> clean_table df = Inl AttributeError"
  by (simp add: clean_table_def str_strip_def)

section \<open>Facts about load\_excel\<close>

lemma first_column_unnamed_True: "first_column_unnamed df = Inr True \<longleftrightarrow> placeholder_first df"
  by (auto simp: first_column_unnamed_def placeholder_first_def split: list.splits label.splits)

lemma read_with_fallback_file:
  assumes "disk w = Some wb"
  shows "read_with_fallback w =
     (case wb 2 of
        Inl e \<Rightarrow> (Inl e, w\<lparr>reads := reads w @ [2]\<rparr>)
      | Inr df \<Rightarrow>
          (if placeholder_first df then (wb 3, w\<lparr>reads := reads w @ [2, 3]\<rparr>)
           else (case first_column_unnamed df of
                   Inl e \<Rightarrow> (Inl e, w\<lparr>reads := reads w @ [2]\<rparr>)
                 | Inr b \<Rightarrow> (Inr df, w\<lparr>reads := reads w @ [2]\<rparr>))))"
  using assms
  by (auto simp: read_with_fallback_def read_def first_column_unnamed_True[symmetric]
      split: sum.splits bool.splits)

lemma clean_table_Inr:
  assumes "clean_table df = Inr t"
  obtains c cs where "map strip_label (columns df) = c # cs" and "c \<notin> set cs"
    and "t = \<lparr>columns = c # cs, rows = zip [0..<length (kept_rows df)] (kept_rows df)\<rparr>"
proof -
  from assms have ne: "columns df \<noteq> []" using clean_table_no_columns [of df] by auto
  with assms have str: "list_ex is_str (columns df)" using clean_table_no_text [of df] by auto
  from ne obtain c cs where cols: "map strip_label (columns df) = c # cs"
    by (cases "columns df") auto
  from assms clean_table_Cons [OF cols str]
  have "get_indexer_for cs c = []"
    and "t = \<lparr>columns = c # cs, rows = zip [0..<length (kept_rows df)] (kept_rows df)\<rparr>"
    by (auto split: if_splits)
  with cols that show thesis by (simp add: get_indexer_for_Nil_iff)
qed

lemma clean_table_returns:
  assumes "columns df = LStr s # ls" and "LStr (strip s) \<notin> set (map strip_label ls)"
  shows "clean_table df =
    Inr \<lparr>columns = LStr (strip s) # map strip_label ls,
         rows = zip [0..<length (kept_rows df)] (kept_rows df)\<rparr>"
proof -
  have "map strip_label (columns df) = LStr (strip s) # map strip_label ls"
    using assms by simp
  moreover have "list_ex is_str (columns df)" using assms by simp
  ultimately show ?thesis
    using assms(2) by (simp add: clean_table_Cons get_indexer_for_Nil_iff)
qed

lemma load_excel_Some:
  assumes "fst (load_excel w) = Inr (Some t)"
  obtains df where "fst (read_with_fallback w) = Inr df" and "clean_table df = Inr t"
    and "snd (load_excel w) = snd (read_with_fallback w)" and "isfile w"
  using assms
  by (auto simp: load_excel_def split: if_splits prod.splits sum.splits)

lemma rows_zip: "map snd (zip [0..<length xs] xs) = xs" "map fst (zip [0..<length xs] xs) = [0..<length xs]"
  by simp_all

lemma load_excel_file:
  assumes "disk w = Some wb"
  shows "load_excel w =
     (case wb 2 of
        Inl e \<Rightarrow> (Inl e, w\<lparr>reads := reads w @ [2]\<rparr>)
      | Inr df \<Rightarrow>
          (if placeholder_first df
           then ((case wb 3 of Inl e \<Rightarrow> Inl e | Inr df' \<Rightarrow> map_sum id Some (clean_table df')),
                 w\<lparr>reads := reads w @ [2, 3]\<rparr>)
           else ((case first_column_unnamed df of
                    Inl e \<Rightarrow> Inl e
                  | Inr b \<Rightarrow> map_sum id Some (clean_table df)),
                 w\<lparr>reads := reads w @ [2]\<rparr>)))"
  using assms
  by (simp add: load_excel_def isfile_def read_with_fallback_file split: sum.splits)

lemma table_of_read:
  assumes "fst (read_with_fallback w) = Inr df" and "fst (load_excel w) = Inr (Some t)"
  shows "clean_table df = Inr t"
  using assms by (auto elim!: load_excel_Some)

lemma valid_label_first:
  assumes "columns df = LStr lbl # ls" and "valid_label lbl" and "clean_table df = Inr t"
  shows "hd (columns t) = LStr lbl" and "\<not> placeholder_first t"
proof -
  from assms(3) obtain c cs where "map strip_label (columns df) = c # cs"
    and "t = \<lparr>columns = c # cs, rows = zip [0..<length (kept_rows df)] (kept_rows df)\<rparr>"
    by (rule clean_table_Inr)
  with assms(1,2) have "columns t = LStr lbl # cs" by (simp add: valid_label_def)
  with assms(2) show "hd (columns t) = LStr lbl" and "\<not> placeholder_first t"
    by (simp_all add: placeholder_first_def valid_label_def)
qed

lemma clean_table_rows:
  assumes "clean_table df = Inr t"
  shows "map snd (rows t) = kept_rows df" and "map fst (rows t) = [0..<length (rows t)]"
    and "length (rows t) = length (kept_rows df)"
proof -
  from assms obtain c cs where
    "t = \<lparr>columns = c # cs, rows = zip [0..<length (kept_rows df)] (kept_rows df)\<rparr>"
    by (rule clean_table_Inr)
  then show "map snd (rows t) = kept_rows df" and "map fst (rows t) = [0..<length (rows t)]"
    and "length (rows t) = length (kept_rows df)"
    by simp_all
qed

lemma clean_table_columns:
  assumes "clean_table df = Inr t"
  shows "columns t = map strip_label (columns df)"
proof -
  from assms obtain c cs where "map strip_label (columns df) = c # cs"
    and "t = \<lparr>columns = c # cs, rows = zip [0..<length (kept_rows df)] (kept_rows df)\<rparr>"
    by (rule clean_table_Inr)
  then show ?thesis by simp
qed

lemma load_excel_of_read:
  assumes "isfile w" and "fst (read_with_fallback w) = Inr df"
  shows "fst (load_excel w) = map_sum id Some (clean_table df)"
  using assms by (cases "read_with_fallback w") (auto simp: load_excel_def split: sum.splits)

lemma strip_trimmed: "strip s = [] \<or> (\<not> is_space (hd (strip s)) \<and> \<not> is_space (last (strip s)))"
  using strip_ends [of s] by blast

lemma load_excel_depends_on_disk:
  "\<exists>tr. load_excel w = (fst (load_excel \<lparr>disk = disk w, reads = []\<rparr>), w\<lparr>reads := reads w @ tr\<rparr>)
      \<and> tr = reads (snd (load_excel \<lparr>disk = disk w, reads = []\<rparr>))
      \<and> (isfile w \<longrightarrow> tr \<noteq> [])"
proof (cases "disk w")
  case None
  then show ?thesis by (simp add: load_excel_def isfile_def)
next
  case (Some wb)
  have "disk \<lparr>disk = disk w, reads = []\<rparr> = Some wb" using Some by simp
  from load_excel_file [OF this] load_excel_file [OF Some] show ?thesis
    by (simp add: isfile_def Some split: sum.splits)
qed

section \<open>Facts about the row lookup of app.py\<close>

lemma find_filter_hd:
  "find P xs = (if filter P xs = [] then None else Some (hd (filter P xs)))"
  by (induction xs) auto

lemma find_first:
  "find P xs = Some y \<Longrightarrow> \<exists>pre post. xs = pre @ y # post \<and> P y \<and> (\<forall>p \<in> set pre. \<not> P p)"
proof (induction xs)
  case Nil
  then show ?case by simp
next
  case (Cons x xs)
  show ?case
  proof (cases "P x")
    case True
    with Cons.prems have "x = y" by simp
    with True have "x # xs = [] @ y # xs \<and> P y \<and> (\<forall>p \<in> set []. \<not> P p)" by simp
    then show ?thesis by blast
  next
    case False
    with Cons obtain pre post where "xs = pre @ y # post" "P y" "\<forall>p \<in> set pre. \<not> P p"
      by auto
    with False have "x # xs = (x # pre) @ y # post \<and> P y \<and> (\<forall>p \<in> set (x # pre). \<not> P p)"
      by simp
    then show ?thesis by blast
  qed
qed

lemma matches_lambda: "(\<lambda>(i, r). strip (py_str (cell_at r 0)) = x) = matches x"
  by (auto simp: matches_def key_of_def fun_eq_iff)

lemma make_bar_chart_row_unique:
  assumes "columns t = c # cs" and "c \<notin> set cs"
  shows "make_bar_chart_row t x = Inr (find (matches x) (rows t))"
proof -
  from assms have js: "get_indexer_for (columns t) c = [0]"
    by (simp add: get_indexer_for_Cons get_indexer_for_Nil_iff)
  then have m: "name_mask t c x = Inr (map (matches x) (rows t))"
    by (simp add: name_mask_def matches_lambda)
  have "rows (getitem_mask t (map (matches x) (rows t))) = filter (matches x) (rows t)"
    by (simp add: getitem_mask_def mask_filter)
  moreover have "columns (getitem_mask t (map (matches x) (rows t))) = c # cs"
    using assms by (simp add: getitem_mask_def)
  ultimately show ?thesis
    using assms(1) by (simp add: make_bar_chart_row_def m df_empty_def find_filter_hd Let_def)
qed

lemma make_bar_chart_row_loaded:
  assumes "clean_table df = Inr t"
  shows "make_bar_chart_row t x = Inr (find (matches x) (rows t))"
proof -
  from assms obtain c cs where "c \<notin> set cs"
    and "t = \<lparr>columns = c # cs, rows = zip [0..<length (kept_rows df)] (kept_rows df)\<rparr>"
    by (rule clean_table_Inr)
  then have "columns t = c # cs" and "c \<notin> set cs" by simp_all
  then show ?thesis by (rule make_bar_chart_row_unique)
qed

lemma filter_key_kept:
  "\<not> blank_key k \<Longrightarrow>
     filter (\<lambda>r. key_of r = k) (kept_rows df) = filter (\<lambda>r. key_of r = k) (map snd (rows df))"
  by (auto simp: kept_rows_def intro: filter_cong)

section \<open>The example workbooks, loaded\<close>

lemma is_space_simps:
  "is_space CHR '' ''" "\<not> is_space CHR ''A''" "\<not> is_space CHR ''B''" "\<not> is_space CHR ''C''"
  "\<not> is_space CHR ''W''" "\<not> is_space CHR ''R''" "\<not> is_space CHR ''n''" "\<not> is_space CHR ''s''"
  "\<not> is_space CHR ''y''" "\<not> is_space CHR ''k''" "\<not> is_space CHR ''S''" "\<not> is_space CHR ''e''"
  by (simp_all add: is_space_def)

lemma ex_strips:
  "strip ''City'' = ''City''" "strip ''  Water Stress  '' = ''Water Stress''"
  "strip ''Rank'' = ''Rank''" "strip ''Score'' = ''Score''"
  "strip ''Austin'' = ''Austin''" "strip ''  Austin  '' = ''Austin''"
  "strip ''Boston'' = ''Boston''" "strip ''   '' = []" "strip [] = []" "strip ''nan'' = ''nan''"
  by (simp_all add: strip_def is_space_simps)

lemma ex_blank_keys:
  "blank_key Null" "blank_key (Text [])" "blank_key (Text ''   '')"
  "\<not> blank_key (Text ''Austin'')" "\<not> blank_key (Text ''  Austin  '')"
  "\<not> blank_key (Text ''Boston'')"
  by (simp_all add: blank_key_def ex_strips)

lemma ex_read_with_fallback:
  "read_with_fallback ex_world = (Inr ex_read3, ex_world\<lparr>reads := [2, 3]\<rparr>)"
proof -
  have "disk ex_world = Some ex_workbook" by (simp add: ex_world_def)
  moreover have "placeholder_first ex_read2"
    by (simp add: placeholder_first_def ex_read2_def startswith_def)
  ultimately show ?thesis
    by (simp add: read_with_fallback_file ex_workbook_def ex_world_def)
qed

lemma ex_kept_rows:
  "kept_rows ex_read3 =
     [[Text ''Austin'', Num 3, Num 1], [Text ''  Austin  '', Num 5, Num 2], [Text ''Boston'', Num 4, Num 3]]"
  by (simp add: kept_rows_def ex_read3_def key_of_def cell_at_def ex_blank_keys)

lemma ex_clean_table: "clean_table ex_read3 = Inr ex_table"
proof -
  have "columns ex_read3 = LStr ''City'' # [LStr ''  Water Stress  '', LStr ''Rank'']"
    by (simp add: ex_read3_def)
  from clean_table_returns [OF this] show ?thesis
    by (simp add: ex_strips ex_kept_rows ex_table_def upt_rec)
qed

lemma ex_load_excel: "load_excel ex_world = (Inr (Some ex_table), ex_world\<lparr>reads := [2, 3]\<rparr>)"
proof -
  have "isfile ex_world" by (simp add: isfile_def ex_world_def)
  then show ?thesis by (simp add: load_excel_def ex_read_with_fallback ex_clean_table)
qed

lemma ex_three_read:
  "read_with_fallback ex_three_world = (Inr ex_three, ex_three_world\<lparr>reads := [2]\<rparr>)"
proof -
  have "disk ex_three_world = Some (\<lambda>h. if h = 2 then Inr ex_three else Inl (ReadError h))"
    by (simp add: ex_three_world_def)
  moreover have "\<not> placeholder_first ex_three"
    by (simp add: placeholder_first_def ex_three_def startswith_def)
  moreover have "first_column_unnamed ex_three = Inr False"
    by (simp add: first_column_unnamed_def ex_three_def startswith_def)
  ultimately show ?thesis
    by (simp add: read_with_fallback_file ex_three_world_def)
qed

lemma ex_three_kept: "kept_rows ex_three = [[Text ''Austin'', Num 1], [Text ''Boston'', Num 3]]"
  by (simp add: kept_rows_def ex_three_def key_of_def cell_at_def ex_blank_keys)

lemma ex_three_clean_table: "clean_table ex_three = Inr ex_three_table"
proof -
  have "columns ex_three = LStr ''City'' # [LStr ''Score'']"
    by (simp add: ex_three_def)
  from clean_table_returns [OF this] show ?thesis
    by (simp add: ex_strips ex_three_kept ex_three_table_def upt_rec)
qed

lemma ex_three_load:
  "load_excel ex_three_world = (Inr (Some ex_three_table), ex_three_world\<lparr>reads := [2]\<rparr>)"
proof -
  have "isfile ex_three_world" by (simp add: isfile_def ex_three_world_def)
  then show ?thesis by (simp add: load_excel_def ex_three_read ex_three_clean_table)
qed

section \<open>The claims\<close>

text \<open>
  C1. When there is a file, \<open>load_excel\<close> first reads with header row 2. It reads a
  second time, with header row 3, if and only if the first read gave a table whose first
  column name is a placeholder; it never reads a third time. After a second read the
  result is that of the second table alone: the first is discarded. When the first read
  gives a placeholder and the second read has the valid label \<open>lbl\<close> as the name of
  its first column, a table that is returned has \<open>lbl\<close> as the name of its first
  column, which is no placeholder; and a table is returned when no other column has that
  name.
\<close>

theorem load_excel_header_fallback:
  assumes "disk w = Some wb"
  shows
   "(reads (snd (load_excel w)) = reads w @ [2] \<or> reads (snd (load_excel w)) = reads w @ [2, 3])
    \<and> (reads (snd (load_excel w)) = reads w @ [2, 3]
          \<longleftrightarrow> (\<exists>df. wb 2 = Inr df \<and> placeholder_first df))
    \<and> (\<forall>df. wb 2 = Inr df \<and> placeholder_first df \<longrightarrow>
          fst (load_excel w) =
            (case wb 3 of Inl e \<Rightarrow> Inl e | Inr df' \<Rightarrow> map_sum id Some (clean_table df')))
    \<and> (\<forall>df. wb 2 = Inr df \<and> first_column_unnamed df = Inr False \<longrightarrow>
          fst (load_excel w) = map_sum id Some (clean_table df))
    \<and> (\<forall>df df' lbl ls. wb 2 = Inr df \<and> placeholder_first df \<and> wb 3 = Inr df'
           \<and> columns df' = LStr lbl # ls \<and> valid_label lbl \<longrightarrow>
          (\<forall>t. fst (load_excel w) = Inr (Some t)
             \<longrightarrow> hd (columns t) = LStr lbl \<and> \<not> placeholder_first t)
          \<and> (LStr lbl \<notin> set (map strip_label ls) \<longrightarrow> (\<exists>t. fst (load_excel w) = Inr (Some t))))"
proof (intro conjI allI impI)
  note le = load_excel_file [OF assms]
  show "reads (snd (load_excel w)) = reads w @ [2] \<or> reads (snd (load_excel w)) = reads w @ [2, 3]"
    by (simp add: le split: sum.splits)
  show "reads (snd (load_excel w)) = reads w @ [2, 3] \<longleftrightarrow> (\<exists>df. wb 2 = Inr df \<and> placeholder_first df)"
    by (simp add: le split: sum.splits)
  show "fst (load_excel w) =
      (case wb 3 of Inl e \<Rightarrow> Inl e | Inr df' \<Rightarrow> map_sum id Some (clean_table df'))"
    if "wb 2 = Inr df \<and> placeholder_first df" for df
    using that by (simp add: le)
  show "fst (load_excel w) = map_sum id Some (clean_table df)"
    if "wb 2 = Inr df \<and> first_column_unnamed df = Inr False" for df
  proof -
    from that have "\<not> placeholder_first df"
      using first_column_unnamed_True [of df] by simp
    with that show ?thesis by (simp add: le)
  qed
next
  fix df df' lbl ls t
  assume h: "wb 2 = Inr df \<and> placeholder_first df \<and> wb 3 = Inr df'
           \<and> columns df' = LStr lbl # ls \<and> valid_label lbl"
  then have res: "fst (load_excel w) = map_sum id Some (clean_table df')"
    by (simp add: load_excel_file [OF assms])
  {
    assume "fst (load_excel w) = Inr (Some t)"
    with res have "clean_table df' = Inr t" by (cases "clean_table df'") auto
    with h show "hd (columns t) = LStr lbl" and "\<not> placeholder_first t"
      using valid_label_first [of df' lbl ls t] by simp_all
  }
  {
    assume "LStr lbl \<notin> set (map strip_label ls)"
    with h have "LStr (strip lbl) \<notin> set (map strip_label ls)" by (simp add: valid_label_def)
    with h have "\<exists>t. clean_table df' = Inr t" by (simp add: clean_table_returns)
    with res show "\<exists>t. fst (load_excel w) = Inr (Some t)" by auto
  }
qed

theorem load_excel_header_fallback_witness:
  "reads (snd (load_excel ex_world)) = [2, 3]
   \<and> placeholder_first ex_read2
   \<and> valid_label ''City''
   \<and> fst (load_excel ex_world) = Inr (Some ex_table)
   \<and> hd (columns ex_table) = LStr ''City''
   \<and> \<not> placeholder_first ex_table
   \<and> reads (snd (load_excel ex_three_world)) = [2]"
proof -
  have d: "disk ex_world = Some ex_workbook" by (simp add: ex_world_def)
  have d3: "disk ex_three_world = Some (\<lambda>h. if h = 2 then Inr ex_three else Inl (ReadError h))"
    by (simp add: ex_three_world_def)
  have p: "placeholder_first ex_read2"
    by (simp add: placeholder_first_def ex_read2_def startswith_def)
  have np: "\<not> placeholder_first ex_three"
    by (simp add: placeholder_first_def ex_three_def startswith_def)
  have v: "valid_label ''City''" by (simp add: valid_label_def ex_strips startswith_def)
  have c: "columns ex_read3 = LStr ''City'' # [LStr ''  Water Stress  '', LStr ''Rank'']"
    by (simp add: ex_read3_def)
  have h: "ex_workbook 2 = Inr ex_read2 \<and> placeholder_first ex_read2 \<and> ex_workbook 3 = Inr ex_read3
      \<and> columns ex_read3 = LStr ''City'' # [LStr ''  Water Stress  '', LStr ''Rank'']
      \<and> valid_label ''City''"
    using p v c by (simp add: ex_workbook_def)
  note fb = load_excel_header_fallback [OF d]
  from fb h have r: "reads (snd (load_excel ex_world)) = [2, 3]"
    by (auto simp: ex_world_def)
  from fb h have "\<forall>t. fst (load_excel ex_world) = Inr (Some t)
      \<longrightarrow> hd (columns t) = LStr ''City'' \<and> \<not> placeholder_first t"
    by blast
  then have f: "hd (columns ex_table) = LStr ''City'' \<and> \<not> placeholder_first ex_table"
    by (simp add: ex_load_excel)
  from load_excel_header_fallback [OF d3] np
  have "reads (snd (load_excel ex_three_world)) = [2]"
    by (auto simp: ex_three_world_def)
  with r f p v show ?thesis by (simp add: ex_load_excel)
qed

text \<open>
  C2. Let \<open>df\<close> be the table that was read. A table that \<open>load_excel\<close> returns holds
  exactly the rows of \<open>df\<close> whose key is not blank, where a key is blank when it is null
  or when its text, stripped, is empty: a row of \<open>df\<close> is in the result if and only if
  its key is not blank, and no row of the result has a blank key. A table is returned
  when the first column name of \<open>df\<close> is a text that, stripped, is the name of no other
  column. Null, the empty text and the text of three spaces are blank keys; the text
  \<open>Austin\<close> is not.
\<close>

theorem load_excel_blank_key_filter:
  assumes "isfile w" and "fst (read_with_fallback w) = Inr df"
  shows
   "(\<forall>t. fst (load_excel w) = Inr (Some t) \<longrightarrow>
        map snd (rows t) = filter (\<lambda>r. \<not> blank_key (key_of r)) (map snd (rows df))
      \<and> (\<forall>r \<in> set (map snd (rows df)).
            r \<in> set (map snd (rows t)) \<longleftrightarrow> \<not> blank_key (key_of r))
      \<and> (\<forall>r \<in> set (map snd (rows t)). \<not> blank_key (key_of r)))
    \<and> (\<forall>s ls. columns df = LStr s # ls \<and> LStr (strip s) \<notin> set (map strip_label ls)
          \<longrightarrow> (\<exists>t. fst (load_excel w) = Inr (Some t)))
    \<and> blank_key Null \<and> blank_key (Text []) \<and> blank_key (Text ''   '')
    \<and> \<not> blank_key (Text ''Austin'')"
proof (intro conjI allI impI)
  fix t
  assume "fst (load_excel w) = Inr (Some t)"
  with assms(2) have "clean_table df = Inr t" by (rule table_of_read)
  then have eq: "map snd (rows t) = filter (\<lambda>r. \<not> blank_key (key_of r)) (map snd (rows df))"
    by (simp add: clean_table_rows kept_rows_def)
  then show "map snd (rows t) = filter (\<lambda>r. \<not> blank_key (key_of r)) (map snd (rows df))" .
  show "\<forall>r \<in> set (map snd (rows df)). r \<in> set (map snd (rows t)) \<longleftrightarrow> \<not> blank_key (key_of r)"
    unfolding eq by simp
  show "\<forall>r \<in> set (map snd (rows t)). \<not> blank_key (key_of r)"
    unfolding eq by simp
next
  fix s ls
  assume "columns df = LStr s # ls \<and> LStr (strip s) \<notin> set (map strip_label ls)"
  then have "\<exists>t. clean_table df = Inr t" by (simp add: clean_table_returns)
  then show "\<exists>t. fst (load_excel w) = Inr (Some t)"
    using load_excel_of_read [OF assms] by auto
qed (simp_all add: ex_blank_keys)

theorem load_excel_blank_key_filter_witness:
  "isfile ex_world \<and> fst (read_with_fallback ex_world) = Inr ex_read3
   \<and> fst (load_excel ex_world) = Inr (Some ex_table)
   \<and> map snd (rows ex_read3) =
       [[Text ''Austin'', Num 3, Num 1], [Text ''   '', Num 9, Num 9], [Null, Num 7, Num 8],
        [Text ''  Austin  '', Num 5, Num 2], [Text [], Num 6, Num 6], [Text ''Boston'', Num 4, Num 3]]
   \<and> map snd (rows ex_table) =
       [[Text ''Austin'', Num 3, Num 1], [Text ''  Austin  '', Num 5, Num 2],
        [Text ''Boston'', Num 4, Num 3]]
   \<and> map snd (rows ex_table) = filter (\<lambda>r. \<not> blank_key (key_of r)) (map snd (rows ex_read3))
   \<and> blank_key (Text []) \<and> blank_key (Text ''   '') \<and> blank_key Null
   \<and> \<not> blank_key (Text ''Austin'')"
proof -
  have f: "isfile ex_world" by (simp add: isfile_def ex_world_def)
  have r: "fst (read_with_fallback ex_world) = Inr ex_read3" by (simp add: ex_read_with_fallback)
  have l: "fst (load_excel ex_world) = Inr (Some ex_table)" by (simp add: ex_load_excel)
  from load_excel_blank_key_filter [OF f r] l
  have "map snd (rows ex_table) = filter (\<lambda>r. \<not> blank_key (key_of r)) (map snd (rows ex_read3))"
    by blast
  with f r l show ?thesis
    by (simp add: ex_blank_keys) (simp add: ex_table_def ex_read3_def)
qed

text \<open>
  C3. If there is no file at the fixed path, \<open>load_excel\<close> returns \<open>None\<close> (the absent
  result, \<open>Inr None\<close>: no exception and no table), and the world is left as it was: the
  log of reads has not grown, so no read of the file was attempted.
\<close>

theorem load_excel_absent:
  "disk w = None \<Longrightarrow> load_excel w = (Inr None, w)"
  by (simp add: load_excel_def isfile_def)

theorem load_excel_absent_witness:
  "load_excel ex_no_file = (Inr None, ex_no_file) \<and> reads (snd (load_excel ex_no_file)) = []"
  using load_excel_absent [of ex_no_file]
  by (simp add: ex_no_file_def)

text \<open>
  C4. The rows of a table that \<open>load_excel\<close> returns are rows of the table that was read,
  in the same relative order (a subsequence of it: the rows whose key is not blank), and
  their index labels are 0, 1, 2, ... without a gap.
\<close>

theorem load_excel_row_order:
  assumes "fst (read_with_fallback w) = Inr df" and "fst (load_excel w) = Inr (Some t)"
  shows "subseq (map snd (rows t)) (map snd (rows df))
     \<and> map snd (rows t) = kept_rows df
     \<and> map fst (rows t) = [0..<length (rows t)]
     \<and> rows t = zip [0..<length (kept_rows df)] (kept_rows df)"
proof -
  from assms have c: "clean_table df = Inr t" by (rule table_of_read)
  then obtain c cs where
    "t = \<lparr>columns = c # cs, rows = zip [0..<length (kept_rows df)] (kept_rows df)\<rparr>"
    by (rule clean_table_Inr)
  then have "rows t = zip [0..<length (kept_rows df)] (kept_rows df)" by simp
  moreover have "subseq (kept_rows df) (map snd (rows df))"
    by (simp add: kept_rows_def)
  ultimately show ?thesis using clean_table_rows [OF c] by simp
qed

theorem load_excel_row_order_witness:
  "fst (read_with_fallback ex_three_world) = Inr ex_three
   \<and> fst (load_excel ex_three_world) = Inr (Some ex_three_table)
   \<and> rows ex_three = [(0, [Text ''Austin'', Num 1]), (1, [Null, Num 2]), (2, [Text ''Boston'', Num 3])]
   \<and> rows ex_three_table = [(0, [Text ''Austin'', Num 1]), (1, [Text ''Boston'', Num 3])]
   \<and> subseq (map snd (rows ex_three_table)) (map snd (rows ex_three))
   \<and> map fst (rows ex_three_table) = [0..<length (rows ex_three_table)]
   \<and> map fst (rows ex_three_table) = [0, 1]"
proof -
  have r: "fst (read_with_fallback ex_three_world) = Inr ex_three" by (simp add: ex_three_read)
  have l: "fst (load_excel ex_three_world) = Inr (Some ex_three_table)" by (simp add: ex_three_load)
  from load_excel_row_order [OF r l]
  have "subseq (map snd (rows ex_three_table)) (map snd (rows ex_three))"
    and "map fst (rows ex_three_table) = [0..<length (rows ex_three_table)]"
    by blast+
  moreover have "rows ex_three = [(0, [Text ''Austin'', Num 1]), (1, [Null, Num 2]), (2, [Text ''Boston'', Num 3])]"
    by (simp add: ex_three_def)
  moreover have "rows ex_three_table = [(0, [Text ''Austin'', Num 1]), (1, [Text ''Boston'', Num 3])]"
    by (simp add: ex_three_table_def)
  moreover have "map fst (rows ex_three_table) = [0, 1]" by (simp add: ex_three_table_def)
  ultimately show ?thesis using r l by simp
qed

text \<open>
  C5. \<open>get_metric_columns\<close> returns the empty list when the table is absent, is empty
  (\<open>df.empty\<close>) or has fewer than two columns; otherwise it returns the columns without
  the first, in their order: the columns are the first column followed by the result. It
  is a function of the table alone.
\<close>

theorem get_metric_columns_contract:
  "(df = None \<or> (\<exists>d. df = Some d \<and> (df_empty d \<or> length (columns d) < 2))
      \<longrightarrow> get_metric_columns df = [])
   \<and> (\<forall>d. df = Some d \<and> \<not> df_empty d \<and> 2 \<le> length (columns d)
      \<longrightarrow> get_metric_columns df = tl (columns d)
        \<and> columns d = hd (columns d) # get_metric_columns df)"
  by (cases df) (auto simp: get_metric_columns_def drop_Suc df_empty_def)

theorem get_metric_columns_contract_witness:
  "get_metric_columns (Some ex_table) = [LStr ''Water Stress'', LStr ''Rank'']
   \<and> get_metric_columns (Some \<lparr>columns = [LStr ''City''], rows = [(0, [Text ''Austin''])]\<rparr>) = []
   \<and> get_metric_columns (Some \<lparr>columns = [LStr ''City'', LStr ''Score''], rows = []\<rparr>) = []
   \<and> get_metric_columns None = []"
  using get_metric_columns_contract [of "Some ex_table"]
    get_metric_columns_contract [of "Some \<lparr>columns = [LStr ''City''], rows = [(0, [Text ''Austin''])]\<rparr>"]
    get_metric_columns_contract [of "Some \<lparr>columns = [LStr ''City'', LStr ''Score''], rows = []\<rparr>"]
    get_metric_columns_contract [of None]
  by (simp add: ex_table_def df_empty_def)

text \<open>
  C6. When the file is there and the library read fails with an exception \<open>e\<close>, at the
  first read or at the second, \<open>load_excel\<close> ends with that exception and returns no
  table. With no file it returns \<open>None\<close>, which is a different outcome.
\<close>

theorem load_excel_read_error:
  assumes "disk w = Some wb"
  shows "(wb 2 = Inl e \<longrightarrow> load_excel w = (Inl e, w\<lparr>reads := reads w @ [2]\<rparr>))
     \<and> (\<forall>df. wb 2 = Inr df \<and> placeholder_first df \<and> wb 3 = Inl e
           \<longrightarrow> load_excel w = (Inl e, w\<lparr>reads := reads w @ [2, 3]\<rparr>))
     \<and> fst (load_excel (w\<lparr>disk := None\<rparr>)) = Inr None
     \<and> fst (load_excel (w\<lparr>disk := None\<rparr>)) \<noteq> Inl e"
proof (intro conjI allI impI)
  show "load_excel w = (Inl e, w\<lparr>reads := reads w @ [2]\<rparr>)" if "wb 2 = Inl e"
    using that by (simp add: load_excel_file [OF assms])
  show "load_excel w = (Inl e, w\<lparr>reads := reads w @ [2, 3]\<rparr>)"
    if "wb 2 = Inr df \<and> placeholder_first df \<and> wb 3 = Inl e" for df
    using that by (simp add: load_excel_file [OF assms])
  show "fst (load_excel (w\<lparr>disk := None\<rparr>)) = Inr None"
    by (simp add: load_excel_def isfile_def)
  then show "fst (load_excel (w\<lparr>disk := None\<rparr>)) \<noteq> Inl e" by simp
qed

theorem load_excel_read_error_witness:
  "load_excel ex_corrupt_world = (Inl (ReadError 0), ex_corrupt_world\<lparr>reads := [2]\<rparr>)
   \<and> fst (load_excel ex_no_file) = Inr None
   \<and> fst (load_excel ex_corrupt_world) \<noteq> fst (load_excel ex_no_file)"
proof -
  have d: "disk ex_corrupt_world = Some (\<lambda>h. Inl (ReadError 0))"
    by (simp add: ex_corrupt_world_def)
  have n: "ex_corrupt_world\<lparr>disk := None\<rparr> = ex_no_file"
    by (simp add: ex_corrupt_world_def ex_no_file_def)
  from load_excel_read_error [OF d, of "ReadError 0"]
  have "load_excel ex_corrupt_world = (Inl (ReadError 0), ex_corrupt_world\<lparr>reads := reads ex_corrupt_world @ [2]\<rparr>)"
    and "fst (load_excel (ex_corrupt_world\<lparr>disk := None\<rparr>)) = Inr None"
    by simp_all
  then show ?thesis by (simp add: n) (simp add: ex_corrupt_world_def)
qed

text \<open>
  C7. The column names of a table that \<open>load_excel\<close> returns are the stripped names of
  the table that was read, position by position. A name that is a text has no white
  space at either end, and stripping it again changes nothing. A column read as
  \<open>  Water Stress  \<close> is returned as \<open>Water Stress\<close>.
\<close>

theorem load_excel_column_names_stripped:
  assumes "fst (read_with_fallback w) = Inr df" and "fst (load_excel w) = Inr (Some t)"
  shows "columns t = map strip_label (columns df)
     \<and> (\<forall>s. LStr s \<in> set (columns t) \<longrightarrow>
           strip s = s \<and> (s = [] \<or> (\<not> is_space (hd s) \<and> \<not> is_space (last s))))
     \<and> (\<forall>j s. j < length (columns df) \<and> columns df ! j = LStr s
           \<longrightarrow> columns t ! j = LStr (strip s))
     \<and> (\<forall>j. j < length (columns df) \<and> columns df ! j = LStr ''  Water Stress  ''
           \<longrightarrow> columns t ! j = LStr ''Water Stress'')"
proof -
  from assms have "clean_table df = Inr t" by (rule table_of_read)
  then have cols: "columns t = map strip_label (columns df)" by (rule clean_table_columns)
  have a: "strip s = s \<and> (s = [] \<or> (\<not> is_space (hd s) \<and> \<not> is_space (last s)))"
    if "LStr s \<in> set (columns t)" for s
  proof -
    from that cols obtain l where sl: "strip_label l = LStr s" by auto
    then obtain s0 where "s = strip s0" by (cases l) auto
    then show ?thesis using strip_idem [of s0] strip_trimmed [of s0] by simp
  qed
  have b: "columns t ! j = LStr (strip s)" if "j < length (columns df) \<and> columns df ! j = LStr s" for j s
    using that cols by simp
  have "strip ''  Water Stress  '' = ''Water Stress''" by (rule ex_strips)
  with b have "columns t ! j = LStr ''Water Stress''"
    if "j < length (columns df) \<and> columns df ! j = LStr ''  Water Stress  ''" for j
    using that by fastforce
  with cols a b show ?thesis by blast
qed

theorem load_excel_column_names_stripped_witness:
  "fst (read_with_fallback ex_world) = Inr ex_read3
   \<and> fst (load_excel ex_world) = Inr (Some ex_table)
   \<and> columns ex_read3 ! 1 = LStr ''  Water Stress  ''
   \<and> columns ex_table ! 1 = LStr ''Water Stress''
   \<and> columns ex_table = map strip_label (columns ex_read3)"
proof -
  have r: "fst (read_with_fallback ex_world) = Inr ex_read3" by (simp add: ex_read_with_fallback)
  have l: "fst (load_excel ex_world) = Inr (Some ex_table)" by (simp add: ex_load_excel)
  have c: "1 < length (columns ex_read3) \<and> columns ex_read3 ! 1 = LStr ''  Water Stress  ''"
    by (simp add: ex_read3_def)
  from load_excel_column_names_stripped [OF r l] c
  have "columns ex_table ! 1 = LStr ''Water Stress''"
    and "columns ex_table = map strip_label (columns ex_read3)"
    by blast+
  with r l c show ?thesis by simp
qed

text \<open>
  C8. Two calls of \<open>load_excel\<close> in a row, with the file unchanged between them, give
  the same result. No call changes the file. Each call makes its own reads, the same
  ones both times, and at least one when the file is there: nothing is cached. The
  result of a call depends on the file alone, not on what was read before.
\<close>

theorem load_excel_twice:
  assumes "load_excel w = (r1, w1)" and "load_excel w1 = (r2, w2)"
  shows "r2 = r1 \<and> disk w1 = disk w \<and> disk w2 = disk w
     \<and> (\<exists>tr. reads w1 = reads w @ tr \<and> reads w2 = reads w1 @ tr \<and> (isfile w \<longrightarrow> tr \<noteq> []))
     \<and> (\<forall>w'. disk w' = disk w \<longrightarrow> fst (load_excel w') = r1)"
proof -
  from load_excel_depends_on_disk [of w] assms(1)
  obtain tr where 1: "r1 = fst (load_excel \<lparr>disk = disk w, reads = []\<rparr>)"
    and w1: "w1 = w\<lparr>reads := reads w @ tr\<rparr>"
    and tr: "tr = reads (snd (load_excel \<lparr>disk = disk w, reads = []\<rparr>))"
    and ne: "isfile w \<longrightarrow> tr \<noteq> []"
    by auto
  from w1 have d1: "disk w1 = disk w" by simp
  from load_excel_depends_on_disk [of w1] assms(2) d1
  have 2: "r2 = fst (load_excel \<lparr>disk = disk w, reads = []\<rparr>)"
    and w2: "w2 = w1\<lparr>reads := reads w1 @ tr\<rparr>"
    using tr by auto
  have "fst (load_excel w') = r1" if "disk w' = disk w" for w'
    using load_excel_depends_on_disk [of w'] that 1 by auto
  with 1 2 d1 w1 w2 ne show ?thesis by auto
qed

theorem load_excel_twice_witness:
  "load_excel ex_world = (Inr (Some ex_table), ex_world\<lparr>reads := [2, 3]\<rparr>)
   \<and> load_excel (ex_world\<lparr>reads := [2, 3]\<rparr>) = (Inr (Some ex_table), ex_world\<lparr>reads := [2, 3, 2, 3]\<rparr>)"
proof -
  obtain r2 w2 where l2: "load_excel (ex_world\<lparr>reads := [2, 3]\<rparr>) = (r2, w2)"
    by (cases "load_excel (ex_world\<lparr>reads := [2, 3]\<rparr>)")
  from load_excel_twice [OF ex_load_excel l2]
  have "r2 = Inr (Some ex_table)" and "disk w2 = disk ex_world"
    and "\<exists>tr. [2, 3] = reads ex_world @ tr \<and> reads w2 = [2, 3] @ tr"
    by auto
  then have "r2 = Inr (Some ex_table)" and "w2 = ex_world\<lparr>reads := [2, 3, 2, 3]\<rparr>"
    by (auto simp: ex_world_def)
  with l2 show ?thesis by (simp add: ex_load_excel)
qed

text \<open>
  C9. \<open>load_excel\<close> does not remove duplicates: the rows of the returned table with a
  given key that is not blank are the rows of the table that was read with that key, all
  of them and in their order. The lookup of \<open>make_bar_chart\<close> on a returned table takes
  the first row, in the order of the table, that matches the city name: the rows before
  it do not match, and it finds no row only when no row matches.
\<close>

theorem load_excel_duplicate_keys:
  assumes "fst (read_with_fallback w) = Inr df" and "fst (load_excel w) = Inr (Some t)"
  shows "(\<forall>k. \<not> blank_key k \<longrightarrow>
            filter (\<lambda>r. key_of r = k) (map snd (rows t)) =
            filter (\<lambda>r. key_of r = k) (map snd (rows df)))
     \<and> (\<forall>x. make_bar_chart_row t x = Inr (find (matches x) (rows t)))
     \<and> (\<forall>x row. make_bar_chart_row t x = Inr (Some row) \<longrightarrow>
           (\<exists>pre post. rows t = pre @ row # post \<and> matches x row
              \<and> (\<forall>p \<in> set pre. \<not> matches x p)))
     \<and> (\<forall>x. make_bar_chart_row t x = Inr None \<longleftrightarrow> (\<forall>p \<in> set (rows t). \<not> matches x p))"
proof -
  from assms have c: "clean_table df = Inr t" by (rule table_of_read)
  note mk = make_bar_chart_row_loaded [OF c]
  have 1: "filter (\<lambda>r. key_of r = k) (map snd (rows t)) =
      filter (\<lambda>r. key_of r = k) (map snd (rows df))" if "\<not> blank_key k" for k
    using that by (simp add: clean_table_rows [OF c] filter_key_kept)
  have 3: "\<exists>pre post. rows t = pre @ row # post \<and> matches x row \<and> (\<forall>p \<in> set pre. \<not> matches x p)"
    if "make_bar_chart_row t x = Inr (Some row)" for x row
  proof -
    from that have "find (matches x) (rows t) = Some row" by (simp add: mk)
    then show ?thesis by (rule find_first)
  qed
  have 4: "make_bar_chart_row t x = Inr None \<longleftrightarrow> (\<forall>p \<in> set (rows t). \<not> matches x p)" for x
    by (auto simp: mk find_None_iff)
  from 1 mk 3 4 show ?thesis by blast
qed

theorem load_excel_duplicate_keys_witness:
  "fst (read_with_fallback ex_world) = Inr ex_read3
   \<and> fst (load_excel ex_world) = Inr (Some ex_table)
   \<and> filter (matches ''Austin'') (rows ex_table) =
       [(0, [Text ''Austin'', Num 3, Num 1]), (1, [Text ''  Austin  '', Num 5, Num 2])]
   \<and> make_bar_chart_row ex_table ''Austin'' = Inr (Some (0, [Text ''Austin'', Num 3, Num 1]))
   \<and> make_bar_chart_row ex_table ''Dallas'' = Inr None"
proof -
  have r: "fst (read_with_fallback ex_world) = Inr ex_read3" by (simp add: ex_read_with_fallback)
  have l: "fst (load_excel ex_world) = Inr (Some ex_table)" by (simp add: ex_load_excel)
  from load_excel_duplicate_keys [OF r l]
  have "\<forall>x. make_bar_chart_row ex_table x = Inr (find (matches x) (rows ex_table))"
    by blast
  then have "make_bar_chart_row ex_table ''Austin'' = Inr (find (matches ''Austin'') (rows ex_table))"
    and "make_bar_chart_row ex_table ''Dallas'' = Inr (find (matches ''Dallas'') (rows ex_table))"
    by simp_all
  then show ?thesis using r l
    by (simp add: ex_table_def matches_def key_of_def cell_at_def ex_strips)
qed

text \<open>
  C10. The cells of every row of a table that \<open>load_excel\<close> returns are the cells of a
  row of the table that was read, unchanged, and every row that was read with a key that
  is not blank is still there. A row read with the key \<open>  Austin  \<close> is returned
  with that key, white space included, and the lookup of \<open>make_bar_chart\<close> for
  \<open>Austin\<close> finds a row: the lookup strips the keys itself, so that looking up the
  stripped key of any returned row finds a row with that stripped key.
\<close>

theorem load_excel_keeps_cells:
  assumes "fst (read_with_fallback w) = Inr df" and "fst (load_excel w) = Inr (Some t)"
  shows "set (map snd (rows t)) \<subseteq> set (map snd (rows df))
     \<and> (\<forall>r \<in> set (map snd (rows df)). \<not> blank_key (key_of r) \<longrightarrow> r \<in> set (map snd (rows t)))
     \<and> (\<forall>r \<in> set (map snd (rows df)). key_of r = Text ''  Austin  '' \<longrightarrow>
           r \<in> set (map snd (rows t))
           \<and> (\<exists>i r'. make_bar_chart_row t ''Austin'' = Inr (Some (i, r'))))
     \<and> (\<forall>ir \<in> set (rows t). \<exists>i r'. make_bar_chart_row t (strip (py_str (key_of (snd ir)))) = Inr (Some (i, r'))
           \<and> strip (py_str (key_of r')) = strip (py_str (key_of (snd ir))))"
proof -
  from assms have c: "clean_table df = Inr t" by (rule table_of_read)
  note mk = make_bar_chart_row_loaded [OF c]
  have rows: "map snd (rows t) = kept_rows df" by (rule clean_table_rows [OF c])
  have 1: "set (map snd (rows t)) \<subseteq> set (map snd (rows df))"
    unfolding rows by (auto simp: kept_rows_def)
  have 2: "r \<in> set (map snd (rows t))"
    if "r \<in> set (map snd (rows df))" "\<not> blank_key (key_of r)" for r
    using that unfolding rows by (simp add: kept_rows_def)
  have found: "\<exists>i r'. make_bar_chart_row t x = Inr (Some (i, r')) \<and> strip (py_str (key_of r')) = x"
    if "ir \<in> set (rows t)" "matches x ir" for ir x
  proof -
    from that have "\<exists>p \<in> set (rows t). matches x p" by blast
    then have "find (matches x) (rows t) \<noteq> None" by (auto simp: find_None_iff)
    then obtain row where f: "find (matches x) (rows t) = Some row" by auto
    then have "matches x row" by (auto dest: find_first)
    with f show ?thesis by (cases row) (simp add: mk matches_def)
  qed
  have 3: "r \<in> set (map snd (rows t)) \<and> (\<exists>i r'. make_bar_chart_row t ''Austin'' = Inr (Some (i, r')))"
    if "r \<in> set (map snd (rows df))" "key_of r = Text ''  Austin  ''" for r
  proof -
    from that have nb: "\<not> blank_key (key_of r)" by (simp add: ex_blank_keys)
    with that(1) have in_t: "r \<in> set (map snd (rows t))" by (rule 2)
    then obtain i where "(i, r) \<in> set (rows t)" by auto
    moreover have "matches ''Austin'' (i, r)" using that by (simp add: matches_def ex_strips)
    ultimately show ?thesis using in_t found by blast
  qed
  have 4: "\<exists>i r'. make_bar_chart_row t (strip (py_str (key_of (snd ir)))) = Inr (Some (i, r'))
           \<and> strip (py_str (key_of r')) = strip (py_str (key_of (snd ir)))"
    if "ir \<in> set (rows t)" for ir
    using that found [of ir "strip (py_str (key_of (snd ir)))"] by (simp add: matches_def)
  from 1 2 3 4 show ?thesis by blast
qed

theorem load_excel_keeps_cells_witness:
  "fst (read_with_fallback ex_world) = Inr ex_read3
   \<and> fst (load_excel ex_world) = Inr (Some ex_table)
   \<and> [Text ''  Austin  '', Num 5, Num 2] \<in> set (map snd (rows ex_read3))
   \<and> [Text ''  Austin  '', Num 5, Num 2] \<in> set (map snd (rows ex_table))
   \<and> Text ''  Austin  '' \<noteq> Text ''Austin''
   \<and> matches ''Austin'' (1, [Text ''  Austin  '', Num 5, Num 2])"
proof -
  have r: "fst (read_with_fallback ex_world) = Inr ex_read3" by (simp add: ex_read_with_fallback)
  have l: "fst (load_excel ex_world) = Inr (Some ex_table)" by (simp add: ex_load_excel)
  have i: "[Text ''  Austin  '', Num 5, Num 2] \<in> set (map snd (rows ex_read3))"
    by (simp add: ex_read3_def)
  have k: "key_of [Text ''  Austin  '', Num 5, Num 2] = Text ''  Austin  ''"
    by (simp add: key_of_def cell_at_def)
  from load_excel_keeps_cells [OF r l] i k
  have "[Text ''  Austin  '', Num 5, Num 2] \<in> set (map snd (rows ex_table))"
    by blast
  with r l i show ?thesis by (simp add: matches_def key_of_def cell_at_def ex_strips)
qed

end
